theory Spec2Isabelle
  imports Main "HOL-Library.Word" "HOL-Library.AList" "HOL-Library.Sublist"
begin

section \<open>JavaScript strings\<close>

text \<open>
  A JavaScript string is a sequence of UTF-16 code units. The regular expressions of
  the server carry no \<^verbatim>\<open>u\<close> flag, so they too work on code units. ASCII literals of
  the source are written with \<open>js\<close>; the few non-ASCII literals are given by their
  code units.
\<close>

type_synonym jsstring = "16 word list"

definition js :: "string \<Rightarrow> jsstring" where
  "js s = map (\<lambda>c. of_nat (of_char c)) s"

text \<open>\<^verbatim>\<open>s.startsWith(p)\<close>\<close>

fun startsWith :: "'a list \<Rightarrow> 'a list \<Rightarrow> bool" where
  "startsWith s [] = True"
| "startsWith [] (p # ps) = False"
| "startsWith (c # cs) (p # ps) = (c = p \<and> startsWith cs ps)"

text \<open>
  \<^verbatim>\<open>/(k1|k2|...)/.test(s)\<close> for literal alternatives: some alternative occurs at
  some position of \<open>s\<close>.
\<close>

fun test_alternatives :: "jsstring list \<Rightarrow> jsstring \<Rightarrow> bool" where
  "test_alternatives alts [] = list_ex (\<lambda>k. startsWith [] k) alts"
| "test_alternatives alts (c # cs) =
     (list_ex (\<lambda>k. startsWith (c # cs) k) alts \<or> test_alternatives alts cs)"

text \<open>
  White space and line terminators of ECMAScript, as \<^verbatim>\<open>String.prototype.trim\<close> and
  the class \<^verbatim>\<open>\s\<close> see them.
\<close>

definition isWhiteSpace :: "16 word \<Rightarrow> bool" where
  "isWhiteSpace c \<longleftrightarrow>
     c \<in> set [0x09, 0x0A, 0x0B, 0x0C, 0x0D, 0x20, 0xA0, 0x1680, 0x2028, 0x2029,
              0x202F, 0x205F, 0x3000, 0xFEFF]
     \<or> (0x2000 \<le> c \<and> c \<le> 0x200A)"

definition trim :: "jsstring \<Rightarrow> jsstring" where
  "trim s = rev (dropWhile isWhiteSpace (rev (dropWhile isWhiteSpace s)))"

text \<open>
  \<^verbatim>\<open>String.prototype.toLowerCase\<close>. The model covers every code unit whose
  lower-case form contains a Basic Latin letter: \<^verbatim>\<open>A\<close>..\<^verbatim>\<open>Z\<close>, U+0130 (which
  becomes \<^verbatim>\<open>i\<close> followed by U+0307) and U+212A (the Kelvin sign, which becomes
  \<^verbatim>\<open>k\<close>). Other cased letters (Latin-1, Greek, Cyrillic, ...) are left as they
  are: their lower-case forms lie outside Basic Latin and outside the CJK ideographs,
  the only code units that the keyword pattern and the language tags of the server
  look for.
\<close>

definition lower_unit :: "16 word \<Rightarrow> jsstring" where
  "lower_unit c =
     (if 0x41 \<le> c \<and> c \<le> 0x5A then [c + 0x20]
      else if c = 0x130 then [0x69, 0x307]
      else if c = 0x212A then [0x6B]
      else [c])"

definition toLowerCase :: "jsstring \<Rightarrow> jsstring" where
  "toLowerCase s = concat (map lower_unit s)"

text \<open>\<^verbatim>\<open>String(n)\<close> for a non-negative integer: its decimal digits.\<close>

fun decimal :: "nat \<Rightarrow> jsstring" where
  "decimal n = (if n < 10 then [0x30 + of_nat n]
                else decimal (n div 10) @ [0x30 + of_nat (n mod 10)])"

declare decimal.simps [simp del]

section \<open>Objects and the spread operator\<close>

text \<open>
  A plain object is the list of its own properties in insertion order, with distinct
  keys. An assignment \<^verbatim>\<open>o[k] = v\<close> overwrites the value of an existing key in place
  and appends a new key (\<open>AList.update\<close>); \<^verbatim>\<open>{...a, ...b}\<close> starts from the empty
  object and assigns the properties of \<open>a\<close>, then those of \<open>b\<close>. (Keys that are array
  indices are enumerated first by the language; no tool name is one, since the
  discovered names contain an underscore, and the theorems below are about lookup,
  not order.)
\<close>

type_synonym 'v obj = "(jsstring \<times> 'v) list"

definition assignAll :: "'v obj \<Rightarrow> 'v obj \<Rightarrow> 'v obj" where
  "assignAll target source = fold (\<lambda>(k, v) acc. AList.update k v acc) source target"

definition spread2 :: "'v obj \<Rightarrow> 'v obj \<Rightarrow> 'v obj" where
  "spread2 a b = assignAll (assignAll [] a) b"

definition spread3 :: "'v obj \<Rightarrow> 'v obj \<Rightarrow> 'v obj \<Rightarrow> 'v obj" where
  "spread3 a b c = assignAll (assignAll (assignAll [] a) b) c"

section \<open>The tool registry\<close>

datatype tool =
    CalculateTool | GetCurrentTimeTool | ReadFileTool | WriteFileTool | DeleteFileTool
  | MCPTool jsstring
  | SkillTool jsstring

definition baseTools :: "tool obj" where
  "baseTools =
     [(js ''calculate'', CalculateTool),
      (js ''getCurrentTime'', GetCurrentTimeTool),
      (js ''readFile'', ReadFileTool),
      (js ''writeFile'', WriteFileTool),
      (js ''deleteFile'', DeleteFileTool)]"

text \<open>
  \<^verbatim>\<open>getTools()\<close> reads the module variables \<^verbatim>\<open>mcpTools\<close> and \<^verbatim>\<open>skillTools\<close>; they
  are arguments here.
\<close>

definition getTools :: "tool obj \<Rightarrow> tool obj \<Rightarrow> tool obj" where
  "getTools mcpTools skillTools = spread3 baseTools mcpTools skillTools"

section \<open>JSON values\<close>

text \<open>
  The request body and the messages are parsed JSON. A value that may be
  \<^verbatim>\<open>undefined\<close> is a \<open>json option\<close>. Numbers are never inspected by the handler.
\<close>

datatype json =
    JNull | JBool bool | JNum int | JStr jsstring
  | JArr "json list" | JObj "(jsstring \<times> json) list"

text \<open>
  \<^verbatim>\<open>v.messages\<close> and \<^verbatim>\<open>v.content\<close> on a value that is neither \<^verbatim>\<open>null\<close> nor
  \<^verbatim>\<open>undefined\<close>: only an object can have such a property.
\<close>

fun getProperty :: "json \<Rightarrow> jsstring \<Rightarrow> json option" where
  "getProperty (JObj props) k = map_of props k"
| "getProperty v k = None"

fun truthy :: "json option \<Rightarrow> bool" where
  "truthy None = False"
| "truthy (Some JNull) = False"
| "truthy (Some (JBool b)) = b"
| "truthy (Some (JNum n)) = (n \<noteq> 0)"
| "truthy (Some (JStr s)) = (s \<noteq> [])"
| "truthy (Some (JArr vs)) = True"
| "truthy (Some (JObj props)) = True"

fun isArray :: "json option \<Rightarrow> bool" where
  "isArray (Some (JArr vs)) = True"
| "isArray v = False"

fun elements :: "json option \<Rightarrow> json list" where
  "elements (Some (JArr vs)) = vs"
| "elements v = []"

section \<open>The chat endpoint\<close>

datatype toolChoice = Required | Auto

text \<open>
  The arguments of the call of \<^verbatim>\<open>generateText\<close>. The system prompt is a fixed text
  around the joined tool names, kept here as the list of names.
\<close>

record genRequest =
  model :: jsstring
  toolNames :: "jsstring list"
  messages :: "json list"
  tools :: "tool obj"
  toolChoice :: toolChoice
  stopWhen :: nat

record toolCall =
  toolName :: jsstring
  input :: json

text \<open>The fields of the result of \<^verbatim>\<open>generateText\<close> that the handler reads.\<close>

record genResult =
  gen_text :: jsstring
  gen_toolCalls :: "toolCall list"
  gen_response_messages :: "json list"

text \<open>
  The text of an error body: a string of the server or of the thrown error, or the
  message that the engine gives the \<^verbatim>\<open>TypeError\<close> of a failed destructuring.
\<close>

datatype errorText = Literal jsstring | TypeErrorMessage

datatype responseBody =
    ErrorBody errorText
  | ChatBody "json list" jsstring "toolCall list" bool

record response =
  status :: nat
  body :: responseBody

fun responseText :: "responseBody \<Rightarrow> jsstring option" where
  "responseText (ChatBody ms t cs h) = Some t"
| "responseText (ErrorBody e) = None"

text \<open>The alternatives of the pattern of \<^verbatim>\<open>requiresAction\<close>, in the order of the source.\<close>

definition actionKeywords :: "jsstring list" where
  "actionKeywords =
     [[0x63D0, 0x4EA4], js ''commit'', js ''push'', [0x6267, 0x884C], [0x6267, 0x884C],
      [0x505A], [0x5B8C, 0x6210], [0x5E2E, 0x6211], [0x8BF7],
      js ''git'', js ''add'', js ''status'']"

text \<open>\<^verbatim>\<open>messages[messages.length - 1]\<close>: \<^verbatim>\<open>undefined\<close> on the empty array.\<close>

definition lastMessage :: "json list \<Rightarrow> json option" where
  "lastMessage ms = (if ms = [] then None else Some (last ms))"

text \<open>\<^verbatim>\<open>lastMessage?.content\<close>\<close>

fun optionalContent :: "json option \<Rightarrow> json option" where
  "optionalContent None = None"
| "optionalContent (Some JNull) = None"
| "optionalContent (Some v) = getProperty v (js ''content'')"

definition userMessage :: "json list \<Rightarrow> jsstring" where
  "userMessage ms =
     (case optionalContent (lastMessage ms) of
        Some (JStr s) \<Rightarrow> toLowerCase s
      | _ \<Rightarrow> [])"

definition requiresAction :: "json list \<Rightarrow> bool" where
  "requiresAction ms = test_alternatives actionKeywords (userMessage ms)"

definition chatRequest :: "tool obj \<Rightarrow> json list \<Rightarrow> genRequest" where
  "chatRequest availableTools ms =
     \<lparr>model = js ''gpt-4o-mini'',
      toolNames = map fst availableTools,
      messages = ms,
      tools = availableTools,
      toolChoice = (if requiresAction ms then Required else Auto),
      stopWhen = 10\<rparr>"

text \<open>The default feedback message, with the number of tool calls in it.\<close>

definition defaultFeedback :: "nat \<Rightarrow> jsstring" where
  "defaultFeedback n =
     [0x2705, 0x20, 0x5DF2, 0x5B8C, 0x6210, 0x20] @ decimal n @
     [0x20, 0x4E2A, 0x5DE5, 0x5177, 0x8C03, 0x7528, 0x3002,
      0x4EFB, 0x52A1, 0x6267, 0x884C, 0x5B8C, 0x6210, 0x3002]"

definition chatResponse :: "genResult \<Rightarrow> response" where
  "chatResponse r =
     (let text = gen_text r;
          toolCalls = gen_toolCalls r;
          hasToolCalls = (toolCalls \<noteq> []);
          hasTextResponse = (text \<noteq> [] \<and> trim text \<noteq> []);
          finalText = (if hasToolCalls \<and> \<not> hasTextResponse
                       then defaultFeedback (length toolCalls) else text)
      in \<lparr>status = 200,
          body = ChatBody (gen_response_messages r)
                   (if finalText \<noteq> [] then finalText else text)
                   toolCalls hasToolCalls\<rparr>)"

text \<open>
  The handler of \<^verbatim>\<open>POST /api/chat\<close>. \<open>gen\<close> is the hosted model behind
  \<^verbatim>\<open>generateText\<close>: it returns a result or throws an error with a message. The
  handler returns the response and the generation requests it has issued. The body
  parser stores an object or an array in \<^verbatim>\<open>ctx.request.body\<close> (it rejects any other
  JSON text before the handler runs, and stores the empty object when there is no
  body); destructuring \<^verbatim>\<open>null\<close> would throw inside the \<^verbatim>\<open>try\<close>.
\<close>

definition chat ::
  "(genRequest \<Rightarrow> jsstring + genResult) \<Rightarrow> tool obj \<Rightarrow> json \<Rightarrow> response \<times> genRequest list"
where
  "chat gen availableTools requestBody =
     (if requestBody = JNull
      then (\<lparr>status = 500, body = ErrorBody TypeErrorMessage\<rparr>, [])
      else
        let ms = getProperty requestBody (js ''messages'')
        in if \<not> truthy ms \<or> \<not> isArray ms
           then (\<lparr>status = 400,
                   body = ErrorBody (Literal (js ''Messages array is required''))\<rparr>, [])
           else
             let request = chatRequest availableTools (elements ms)
             in (case gen request of
                   Inl message \<Rightarrow>
                     (\<lparr>status = 500,
                       body = ErrorBody (Literal (if message \<noteq> [] then message
                                                  else js ''Internal Server Error''))\<rparr>,
                      [request])
                 | Inr r \<Rightarrow> (chatResponse r, [request])))"

text \<open>
  The claim about forced tool use speaks of the last user message of the
  conversation. This is that notion, from the words of the specification: the text
  of the last message whose role is \<^verbatim>\<open>user\<close>.
\<close>

fun spec_isUserText :: "json \<Rightarrow> bool" where
  "spec_isUserText (JObj props) =
     (map_of props (js ''role'') = Some (JStr (js ''user''))
      \<and> (case map_of props (js ''content'') of Some (JStr s) \<Rightarrow> True | _ \<Rightarrow> False))"
| "spec_isUserText v = False"

definition spec_lastUserMessage :: "json list \<Rightarrow> json option" where
  "spec_lastUserMessage ms =
     (case filter spec_isUserText ms of [] \<Rightarrow> None | u # us \<Rightarrow> Some (last (u # us)))"

definition spec_lastUserText :: "json list \<Rightarrow> jsstring" where
  "spec_lastUserText ms =
     (case optionalContent (spec_lastUserMessage ms) of Some (JStr s) \<Rightarrow> s | _ \<Rightarrow> [])"

text \<open>
  Two models to run the handler on: one that is unavailable, and one that answers
  with two tool calls and a blank text.
\<close>

definition unavailableModel :: "genRequest \<Rightarrow> jsstring + genResult" where
  "unavailableModel request = Inl (js ''model unavailable'')"

definition silentModel :: "genRequest \<Rightarrow> jsstring + genResult" where
  "silentModel request =
     Inr \<lparr>gen_text = js ''  '',
          gen_toolCalls = [\<lparr>toolName = js ''calculate'', input = JObj []\<rparr>,
                           \<lparr>toolName = js ''getCurrentTime'', input = JObj []\<rparr>],
          gen_response_messages = []\<rparr>"

section \<open>Paths\<close>

text \<open>
  The functions of Node's \<^verbatim>\<open>path\<close> module that the server calls, in their POSIX
  form (\<^verbatim>\<open>path.sep\<close> is \<^verbatim>\<open>/\<close>). \<^verbatim>\<open>normalizeString\<close> walks the segments between
  separators: an empty segment and \<^verbatim>\<open>.\<close> are dropped, \<^verbatim>\<open>..\<close> removes the segment
  before it (and is itself kept only where the path may climb above its start).
\<close>

definition CHAR_FORWARD_SLASH :: "16 word" where
  "CHAR_FORWARD_SLASH = 0x2F"

definition sep :: jsstring where
  "sep = [CHAR_FORWARD_SLASH]"

text \<open>\<^verbatim>\<open>s.split(c)\<close> for a separator of one code unit, and \<^verbatim>\<open>parts.join(s)\<close>.\<close>

fun splitOn :: "'a \<Rightarrow> 'a list \<Rightarrow> 'a list list" where
  "splitOn c [] = [[]]"
| "splitOn c (x # xs) =
     (if x = c then [] # splitOn c xs
      else (case splitOn c xs of
              [] \<Rightarrow> [[x]]
            | w # ws \<Rightarrow> (x # w) # ws))"

fun joinWith :: "'a list \<Rightarrow> 'a list list \<Rightarrow> 'a list" where
  "joinWith s [] = []"
| "joinWith s [w] = w"
| "joinWith s (w # v # ws) = w @ s @ joinWith s (v # ws)"

text \<open>The segments kept so far are held with the last one first.\<close>

fun normalizeSegments :: "bool \<Rightarrow> jsstring list \<Rightarrow> jsstring list \<Rightarrow> jsstring list" where
  "normalizeSegments allowAboveRoot res [] = rev res"
| "normalizeSegments allowAboveRoot res (seg # segs) =
     (if seg = [] \<or> seg = js ''.'' then normalizeSegments allowAboveRoot res segs
      else if seg = js ''..'' then
        (case res of
           [] \<Rightarrow> normalizeSegments allowAboveRoot
                   (if allowAboveRoot then [js ''..''] else []) segs
         | lastSeg # below \<Rightarrow>
             if lastSeg = js ''..''
             then normalizeSegments allowAboveRoot
                    (if allowAboveRoot then js ''..'' # res else res) segs
             else normalizeSegments allowAboveRoot below segs)
      else normalizeSegments allowAboveRoot (seg # res) segs)"

definition normalizeString :: "jsstring \<Rightarrow> bool \<Rightarrow> jsstring" where
  "normalizeString p allowAboveRoot =
     joinWith sep (normalizeSegments allowAboveRoot [] (splitOn CHAR_FORWARD_SLASH p))"

definition isAbsolute :: "jsstring \<Rightarrow> bool" where
  "isAbsolute p = (case p of [] \<Rightarrow> False | c # cs \<Rightarrow> c = CHAR_FORWARD_SLASH)"

definition normalizePath :: "jsstring \<Rightarrow> jsstring" where
  "normalizePath p =
     (if p = [] then js ''.''
      else
        let trailingSeparator = (last p = CHAR_FORWARD_SLASH);
            q = normalizeString p (\<not> isAbsolute p)
        in if q = [] then
             (if isAbsolute p then sep else if trailingSeparator then js ''./'' else js ''.'')
           else
             (let q' = (if trailingSeparator then q @ sep else q)
              in if isAbsolute p then sep @ q' else q'))"

text \<open>\<^verbatim>\<open>path.join(...args)\<close>\<close>

definition join :: "jsstring list \<Rightarrow> jsstring" where
  "join args =
     (let parts = filter (\<lambda>a. a \<noteq> []) args
      in if parts = [] then js ''.'' else normalizePath (joinWith sep parts))"

text \<open>
  \<^verbatim>\<open>path.resolve(...args)\<close> reads its arguments from the last to the first, and then
  the working directory, until the path is absolute. The loop takes them in that
  order.
\<close>

fun resolveLoop :: "jsstring list \<Rightarrow> jsstring \<Rightarrow> jsstring \<times> bool" where
  "resolveLoop [] resolvedPath = (resolvedPath, False)"
| "resolveLoop (p # ps) resolvedPath =
     (if p = [] then resolveLoop ps resolvedPath
      else if isAbsolute p then (p @ sep @ resolvedPath, True)
      else resolveLoop ps (p @ sep @ resolvedPath))"

definition resolve :: "jsstring \<Rightarrow> jsstring list \<Rightarrow> jsstring" where
  "resolve cwd args =
     (case resolveLoop (rev args @ [cwd]) [] of
        (resolvedPath, resolvedAbsolute) \<Rightarrow>
          let n = normalizeString resolvedPath (\<not> resolvedAbsolute)
          in if resolvedAbsolute then sep @ n
             else if n \<noteq> [] then n else js ''.'')"



section \<open>The file system\<close>

text \<open>
  The file system maps a list of names, from the root down, to a file with its content
  or to a directory. There are no symbolic links, and permissions are not modelled.
  Names are told apart code unit by code unit, and names and paths may have any length. Each function of \<^verbatim>\<open>fs\<close> returns its result
  or the error it throws: an error of the operating system, or the error of Node.js
  for a path with a null character in it.

  A path is looked up as the operating system does it, segment by segment: before
  every segment, the empty one after a separator and \<^verbatim>\<open>.\<close> and \<^verbatim>\<open>..\<close> too, the place
  reached so far must be a directory. So a path through a file or through a missing
  directory fails, also when \<^verbatim>\<open>..\<close> would step back out of it, and a path that ends
  with a separator names a directory. What is at the end of the walk is left to the
  caller.
\<close>

datatype node = File jsstring | Directory

datatype errno = ENOENT | EISDIR | ENOTDIR | EEXIST | ERR_INVALID_ARG_VALUE

type_synonym filesystem = "jsstring list \<Rightarrow> node option"

fun walk :: "filesystem \<Rightarrow> jsstring list \<Rightarrow> jsstring list \<Rightarrow> errno + jsstring list" where
  "walk fs cur [] = Inr cur"
| "walk fs cur (s # ss) =
     (case fs cur of
        None \<Rightarrow> Inl ENOENT
      | Some (File content) \<Rightarrow> Inl ENOTDIR
      | Some Directory \<Rightarrow>
          if s = [] \<or> s = js ''.'' then walk fs cur ss
          else if s = js ''..'' then walk fs (butlast cur) ss
          else walk fs (cur @ [s]) ss)"

text \<open>
  A string is written in UTF-8, as a path for the operating system or as the content
  of a file, with U+FFFD in the place of every surrogate that has no pair; so the text
  that is read back is the well-formed string, that of \<^verbatim>\<open>String.prototype.toWellFormed\<close>.
  The names and the contents of the file system are texts as they are read.
\<close>

definition isHighSurrogate :: "16 word \<Rightarrow> bool" where
  "isHighSurrogate c \<longleftrightarrow> 0xD800 \<le> c \<and> c \<le> 0xDBFF"

definition isLowSurrogate :: "16 word \<Rightarrow> bool" where
  "isLowSurrogate c \<longleftrightarrow> 0xDC00 \<le> c \<and> c \<le> 0xDFFF"

fun toWellFormed :: "jsstring \<Rightarrow> jsstring" where
  "toWellFormed [] = []"
| "toWellFormed [c] = (if isHighSurrogate c \<or> isLowSurrogate c then [0xFFFD] else [c])"
| "toWellFormed (c # d # t) =
     (if isHighSurrogate c \<and> isLowSurrogate d then c # d # toWellFormed t
      else if isHighSurrogate c \<or> isLowSurrogate c then 0xFFFD # toWellFormed (d # t)
      else c # toWellFormed (d # t))"

text \<open>
  The segments of a path, from the root: those of the working directory come first
  when the path is relative. A path with a null character is refused by every function
  of \<^verbatim>\<open>fs\<close> before the operating system sees it, and the empty path names nothing.
\<close>

definition pathSegments :: "jsstring \<Rightarrow> jsstring \<Rightarrow> jsstring list" where
  "pathSegments cwd p =
     splitOn CHAR_FORWARD_SLASH (toWellFormed (if isAbsolute p then p else cwd @ sep @ p))"

definition pathError :: "jsstring \<Rightarrow> errno option" where
  "pathError p =
     (if 0 \<in> set p then Some ERR_INVALID_ARG_VALUE else if p = [] then Some ENOENT else None)"

definition locate :: "jsstring \<Rightarrow> filesystem \<Rightarrow> jsstring \<Rightarrow> errno + jsstring list" where
  "locate cwd fs p =
     (case pathError p of
        Some e \<Rightarrow> Inl e
      | None \<Rightarrow> walk fs [] (pathSegments cwd p))"

definition existsSync :: "jsstring \<Rightarrow> filesystem \<Rightarrow> jsstring \<Rightarrow> bool" where
  "existsSync cwd fs p =
     (case locate cwd fs p of
        Inl e \<Rightarrow> False
      | Inr key \<Rightarrow> fs key \<noteq> None)"

definition readFileSync :: "jsstring \<Rightarrow> filesystem \<Rightarrow> jsstring \<Rightarrow> errno + jsstring" where
  "readFileSync cwd fs p =
     (case locate cwd fs p of
        Inl e \<Rightarrow> Inl e
      | Inr key \<Rightarrow>
          (case fs key of
             None \<Rightarrow> Inl ENOENT
           | Some Directory \<Rightarrow> Inl EISDIR
           | Some (File content) \<Rightarrow> Inr content))"

text \<open>\<^verbatim>\<open>fs.statSync(p).isDirectory()\<close>\<close>

definition statIsDirectory :: "jsstring \<Rightarrow> filesystem \<Rightarrow> jsstring \<Rightarrow> errno + bool" where
  "statIsDirectory cwd fs p =
     (case locate cwd fs p of
        Inl e \<Rightarrow> Inl e
      | Inr key \<Rightarrow>
          (case fs key of
             None \<Rightarrow> Inl ENOENT
           | Some n \<Rightarrow> Inr (n = Directory)))"

definition unlinkSync :: "jsstring \<Rightarrow> filesystem \<Rightarrow> jsstring \<Rightarrow> errno + filesystem" where
  "unlinkSync cwd fs p =
     (case locate cwd fs p of
        Inl e \<Rightarrow> Inl e
      | Inr key \<Rightarrow>
          (case fs key of
             None \<Rightarrow> Inl ENOENT
           | Some Directory \<Rightarrow> Inl EISDIR
           | Some (File content) \<Rightarrow> Inr (fs(key := None))))"






section \<open>The file tools\<close>

text \<open>
  The message of an error result: a text built by the tool, or the message of the
  error that a function of \<^verbatim>\<open>fs\<close> threw. The tools take the working directory of
  the process, the value of \<^verbatim>\<open>PROJECT_ROOT\<close> and the file system, and the two tools
  that change the file system return it.
\<close>

datatype toolMessage = Message jsstring | ErrnoMessage errno

datatype toolResult =
    ErrorResult toolMessage
  | ContentResult jsstring
  | SuccessResult jsstring



definition deleteFileTool ::
  "jsstring \<Rightarrow> jsstring \<Rightarrow> filesystem \<Rightarrow> jsstring \<Rightarrow> toolResult \<times> filesystem"
where
  "deleteFileTool cwd PROJECT_ROOT fs filepath =
     (let filePath = (if isAbsolute filepath then filepath else join [PROJECT_ROOT, filepath]);
          resolvedPath = resolve cwd [filePath];
          resolvedRoot = resolve cwd [PROJECT_ROOT]
      in if \<not> startsWith resolvedPath resolvedRoot
         then (ErrorResult (Message (js ''Cannot delete file outside project root: '' @ filepath)), fs)
         else if \<not> existsSync cwd fs filePath
         then (ErrorResult (Message (js ''File '' @ filepath @ js '' not found.'')), fs)
         else (case statIsDirectory cwd fs filePath of
                 Inl e \<Rightarrow> (ErrorResult (ErrnoMessage e), fs)
               | Inr isDir \<Rightarrow>
                   if isDir
                   then (ErrorResult (Message (filepath @
                           js '' is a directory. Use deleteDirectory tool instead.'')), fs)
                   else (case unlinkSync cwd fs filePath of
                           Inl e \<Rightarrow> (ErrorResult (ErrnoMessage e), fs)
                         | Inr fs' \<Rightarrow>
                             (SuccessResult (js ''File '' @ filepath @ js '' deleted successfully.''),
                              fs'))))"

text \<open>
  What the claims mean by a path inside the project root: the segments of the
  resolved root are the first segments of the resolved path, where a path is resolved
  as \<^verbatim>\<open>path.resolve\<close> does it.
\<close>

definition resolvedSegments :: "jsstring \<Rightarrow> jsstring \<Rightarrow> jsstring list" where
  "resolvedSegments cwd p =
     filter (\<lambda>s. s \<noteq> []) (splitOn CHAR_FORWARD_SLASH (resolve cwd [p]))"

definition spec_insideRoot :: "jsstring \<Rightarrow> jsstring \<Rightarrow> jsstring \<Rightarrow> bool" where
  "spec_insideRoot cwd PROJECT_ROOT p =
     startsWith (resolvedSegments cwd p) (resolvedSegments cwd PROJECT_ROOT)"

text \<open>
  A small file system to run the tools on: the project in \<^verbatim>\<open>/app\<close>, and beside it
  the directory \<^verbatim>\<open>/app2\<close> with the file \<^verbatim>\<open>secret.txt\<close>.
\<close>

definition exampleFs :: filesystem where
  "exampleFs =
     map_of
       [([], Directory),
        ([js ''app''], Directory),
        ([js ''app'', js ''server''], Directory),
        ([js ''app'', js ''notes.txt''], File (js ''notes'')),
        ([js ''app2''], Directory),
        ([js ''app2'', js ''secret.txt''], File (js ''secret''))]"

text \<open>
  A path in normal form: the separator, then names joined by the separator, where a
  name is not empty, has no separator in it and is neither \<^verbatim>\<open>.\<close> nor \<^verbatim>\<open>..\<close>.
\<close>

definition validName :: "jsstring \<Rightarrow> bool" where
  "validName s \<longleftrightarrow> s \<noteq> [] \<and> CHAR_FORWARD_SLASH \<notin> set s \<and> s \<noteq> js ''.'' \<and> s \<noteq> js ''..''"

definition absolutePath :: "jsstring list \<Rightarrow> jsstring" where
  "absolutePath segs = sep @ joinWith sep segs"


section \<open>The environment of a provider\<close>

record MCPStdioConfig =
  command :: jsstring
  args :: "jsstring list option"
  env :: "(jsstring obj) option"
  envFile :: "jsstring option"

text \<open>
  The line terminators, which \<^verbatim>\<open>.\<close> does not match in a regular expression.
\<close>

definition isLineTerminator :: "16 word \<Rightarrow> bool" where
  "isLineTerminator c \<longleftrightarrow> c \<in> set [0x0A, 0x0D, 0x2028, 0x2029]"

text \<open>
  \<^verbatim>\<open>trimmed.match(/^([^=]+)=(.*)$/)\<close>: the key is the text before the first
  \<^verbatim>\<open>=\<close> and is not empty; the value is the rest, and has no line terminator in it.
\<close>

definition matchEnvLine :: "jsstring \<Rightarrow> (jsstring \<times> jsstring) option" where
  "matchEnvLine trimmed =
     (let k = takeWhile (\<lambda>c. c \<noteq> 0x3D) trimmed
      in if k = [] then None
         else (case dropWhile (\<lambda>c. c \<noteq> 0x3D) trimmed of
                 [] \<Rightarrow> None
               | eq # v \<Rightarrow> if list_ex isLineTerminator v then None else Some (k, v)))"

text \<open>\<^verbatim>\<open>v.replace(/^["']|["']$/g, '')\<close>: a quote at the start and a quote at the end go.\<close>

definition isQuote :: "16 word \<Rightarrow> bool" where
  "isQuote c \<longleftrightarrow> c = 0x22 \<or> c = 0x27"

definition stripQuotes :: "jsstring \<Rightarrow> jsstring" where
  "stripQuotes v =
     (let v1 = (case v of [] \<Rightarrow> [] | c # cs \<Rightarrow> if isQuote c then cs else v)
      in if v1 \<noteq> [] \<and> isQuote (last v1) then butlast v1 else v1)"

text \<open>
  \<^verbatim>\<open>env[key] = value\<close> on an object made by \<^verbatim>\<open>{}\<close>, for a string value: the key
  \<^verbatim>\<open>__proto__\<close> reaches the setter of the prototype, which ignores a string.
\<close>

definition setProperty :: "jsstring \<Rightarrow> jsstring \<Rightarrow> jsstring obj \<Rightarrow> jsstring obj" where
  "setProperty key v e = (if key = js ''__proto__'' then e else AList.update key v e)"

definition parseEnvLine :: "jsstring \<Rightarrow> jsstring obj \<Rightarrow> jsstring obj" where
  "parseEnvLine line e =
     (let trimmed = trim line
      in if trimmed \<noteq> [] \<and> \<not> startsWith trimmed (js ''#'')
         then (case matchEnvLine trimmed of
                 None \<Rightarrow> e
               | Some (k, v) \<Rightarrow> setProperty (trim k) (stripQuotes (trim v)) e)
         else e)"

definition loadEnvFile ::
  "jsstring \<Rightarrow> filesystem \<Rightarrow> jsstring \<Rightarrow> jsstring \<Rightarrow> errno + jsstring obj"
where
  "loadEnvFile cwd fs envFilePath workspaceFolder =
     (let resolvedPath = (if isAbsolute envFilePath then envFilePath
                          else join [workspaceFolder, envFilePath])
      in if \<not> existsSync cwd fs resolvedPath then Inr []
         else (case readFileSync cwd fs resolvedPath of
                 Inl e \<Rightarrow> Inl e
               | Inr content \<Rightarrow> Inr (fold parseEnvLine (splitOn 0x0A content) [])))"

text \<open>
  The environment that \<^verbatim>\<open>initializeMCPTools\<close> gives the child process of a provider:
  the inline \<^verbatim>\<open>env\<close>, and under it the variables of the \<^verbatim>\<open>envFile\<close> when one is
  named. An error thrown while the file is read ends the loading of this provider.
\<close>

definition stdioEnv ::
  "jsstring \<Rightarrow> filesystem \<Rightarrow> jsstring \<Rightarrow> MCPStdioConfig \<Rightarrow> errno + jsstring obj"
where
  "stdioEnv cwd fs PROJECT_ROOT stdioConfig =
     (let env0 = assignAll [] (case env stdioConfig of None \<Rightarrow> [] | Some e \<Rightarrow> e)
      in (case envFile stdioConfig of
            None \<Rightarrow> Inr env0
          | Some f \<Rightarrow>
              if f = [] then Inr env0
              else (case loadEnvFile cwd fs f PROJECT_ROOT of
                      Inl e \<Rightarrow> Inl e
                    | Inr envFileVars \<Rightarrow> Inr (spread2 envFileVars env0))))"

text \<open>A provider with an inline variable and an env file, and a file system with that file.\<close>

definition exampleConfig :: MCPStdioConfig where
  "exampleConfig =
     \<lparr>command = js ''npx'', args = None,
      env = Some [(js ''B'', js ''inline''), (js ''D'', js ''4'')],
      envFile = Some (js ''.env'')\<rparr>"

definition exampleEnvFs :: filesystem where
  "exampleEnvFs =
     map_of
       [([], Directory),
        ([js ''app''], Directory),
        ([js ''app'', js ''.env''],
         File (js ''A=1'' @ [0x0A] @ js ''# note'' @ [0x0A] @ js ''B = '' @ [0x22] @ js ''two''
               @ [0x22, 0x0A] @ js '' C='' @ [0x27] @ js ''x=y'' @ [0x27, 0x0A]))]"

section \<open>Skills\<close>

text \<open>
  Of a skill the model keeps the code blocks and the flag; the name, the description
  and the text of the instructions play no part in them.
\<close>

record CodeBlock =
  language :: jsstring
  code :: jsstring
  index :: nat

record SkillInfo =
  codeBlocks :: "CodeBlock list"
  hasExecutableScripts :: bool

text \<open>The class \<^verbatim>\<open>\w\<close>, and the three backticks of a fence.\<close>

definition isWordChar :: "16 word \<Rightarrow> bool" where
  "isWordChar c \<longleftrightarrow>
     (0x30 \<le> c \<and> c \<le> 0x39) \<or> (0x41 \<le> c \<and> c \<le> 0x5A) \<or> c = 0x5F
     \<or> (0x61 \<le> c \<and> c \<le> 0x7A)"

definition fence :: jsstring where
  "fence = [0x60, 0x60, 0x60]"

text \<open>The index of the first fence in a string, where the lazy body of a block ends.\<close>

fun findFence :: "jsstring \<Rightarrow> nat option" where
  "findFence [] = None"
| "findFence (c # cs) =
     (if startsWith (c # cs) fence then Some 0 else map_option Suc (findFence cs))"

text \<open>
  A match of \<^verbatim>\<open>/```(\w+)?\n([\s\S]*?)```/\<close> at the start of \<open>s\<close>: the fence, the
  longest run of word characters (the tag, which may be missing), a line feed, and the
  text up to the next fence. The result is the tag, the body and the length of the
  match.
\<close>

definition matchCodeBlock :: "jsstring \<Rightarrow> (jsstring \<times> jsstring \<times> nat) option" where
  "matchCodeBlock s =
     (if startsWith s fence then
        (let r = drop 3 s;
             w = takeWhile isWordChar r
         in (case drop (length w) r of
               [] \<Rightarrow> None
             | nl # r2 \<Rightarrow>
                 if nl = 0x0A then
                   (case findFence r2 of
                      None \<Rightarrow> None
                    | Some i \<Rightarrow> Some (w, take i r2, 3 + length w + 1 + i + 3))
                 else None))
      else None)"

text \<open>
  The loop of \<^verbatim>\<open>codeBlockRegex.exec(content)\<close>: the matches from left to right, each
  search starting where the match before ended.
\<close>

fun execAll :: "jsstring \<Rightarrow> (jsstring \<times> jsstring) list" where
  "execAll [] = []"
| "execAll (c # cs) =
     (case matchCodeBlock (c # cs) of
        None \<Rightarrow> execAll cs
      | Some (w, b, n) \<Rightarrow> (w, b) # execAll (drop (n - 1) cs))"

text \<open>The body of the loop: a block is kept when its trimmed code is not empty.\<close>

fun pushBlocks :: "nat \<Rightarrow> (jsstring \<times> jsstring) list \<Rightarrow> CodeBlock list" where
  "pushBlocks i [] = []"
| "pushBlocks i ((w, b) # ms) =
     (if trim b \<noteq> []
      then \<lparr>language = toLowerCase w, code = trim b, index = i\<rparr> # pushBlocks (i + 1) ms
      else pushBlocks i ms)"

definition executableLanguages :: "jsstring list" where
  "executableLanguages =
     [js ''bash'', js ''sh'', js ''shell'', js ''python'', js ''python3'', js ''node'',
      js ''javascript'', js ''js'', js ''typescript'', js ''ts'']"

text \<open>What \<^verbatim>\<open>loadSkills\<close> computes from the content of one \<^verbatim>\<open>SKILL.md\<close>.\<close>

definition loadSkill :: "jsstring \<Rightarrow> SkillInfo" where
  "loadSkill content =
     (let blocks = pushBlocks 0 (execAll content)
      in \<lparr>codeBlocks = blocks,
          hasExecutableScripts =
            list_ex (\<lambda>block. language block \<in> set executableLanguages \<or> language block = [])
              blocks\<rparr>)"

text \<open>
  A content has no fenced code block when the pattern matches at none of its
  positions.
\<close>

fun noCodeBlock :: "jsstring \<Rightarrow> bool" where
  "noCodeBlock [] = True"
| "noCodeBlock (c # cs) = (matchCodeBlock (c # cs) = None \<and> noCodeBlock cs)"

text \<open>
  Descriptors to load: one with three fenced blocks (a shell script tagged in
  capitals, a Ruby script, a block with no tag) and an empty one; one whose only
  block is a Python script; one whose only block is a Ruby script; and one with
  backticks, three in a row too, but no fenced block.
\<close>

definition exampleSkill :: jsstring where
  "exampleSkill =
     js ''# Deploy'' @ [0x0A] @ fence @ js ''BASH'' @ [0x0A] @ js ''echo hi'' @ [0x0A] @ fence
     @ [0x0A] @ fence @ js ''ruby'' @ [0x0A] @ js ''puts 1'' @ [0x0A] @ fence
     @ [0x0A] @ fence @ [0x0A] @ js ''  '' @ [0x0A] @ fence
     @ [0x0A] @ fence @ [0x0A] @ js ''ls'' @ [0x0A] @ fence"

definition pythonSkill :: jsstring where
  "pythonSkill =
     js ''# Report'' @ [0x0A] @ fence @ js ''Python'' @ [0x0A] @ js ''print(1)'' @ [0x0A] @ fence
     @ [0x0A]"

definition rubySkill :: jsstring where
  "rubySkill = fence @ js ''ruby'' @ [0x0A] @ js ''puts 1'' @ [0x0A] @ fence"

definition plainSkill :: jsstring where
  "plainSkill =
     js ''# Notes'' @ [0x0A] @ js ''Use `git status` first, then '' @ fence @ js ''git push''
     @ fence @ js ''.'' @ [0x0A]"

section \<open>Interpolation of configuration values\<close>


text \<open>A pattern that is a literal text.\<close>

definition matchLiteral :: "jsstring \<Rightarrow> jsstring \<Rightarrow> nat option" where
  "matchLiteral pat s = (if startsWith s pat then Some (length pat) else None)"




















section \<open>Properties of the spread operator\<close>

lemma distinct_assignAll:
  "distinct (map fst t) \<Longrightarrow> distinct (map fst (assignAll t s))"
  unfolding assignAll_def
  by (induction s arbitrary: t) (auto simp: distinct_update)

lemma map_of_assignAll:
  "distinct (map fst s) \<Longrightarrow> map_of (assignAll t s) = map_of t ++ map_of s"
  unfolding assignAll_def
proof (induction s arbitrary: t)
  case Nil
  then show ?case by simp
next
  case (Cons kv s)
  obtain k v where kv: "kv = (k, v)" by (cases kv)
  from Cons.prems kv have k: "k \<notin> fst ` set s" and d: "distinct (map fst s)"
    by auto
  from k have none: "map_of s k = None"
    by (simp add: map_of_eq_None_iff)
  have "map_of (fold (\<lambda>(k, v) acc. AList.update k v acc) (kv # s) t)
      = map_of (AList.update k v t) ++ map_of s"
    using Cons.IH [OF d, of "AList.update k v t"] kv by simp
  also have "\<dots> = map_of t ++ map_of (kv # s)"
  proof
    fix x
    show "(map_of (AList.update k v t) ++ map_of s) x = (map_of t ++ map_of (kv # s)) x"
      using none kv by (cases "map_of s x") (auto simp: map_add_def update_conv')
  qed
  finally show ?case .
qed

lemma map_add_lookup:
  "(m ++ n) k = (case n k of Some v \<Rightarrow> Some v | None \<Rightarrow> m k)"
  by (simp add: map_add_def)

text \<open>
  C2: \<open>getTools\<close> merges the base tools, then the MCP tools, then the skill tools.
  The merged registry has every name once, and a name maps to the definition of the
  latest source that has it: the skill tools first, else the MCP tools, else the base
  tools.
\<close>

theorem getTools_precedence:
  assumes "distinct (map fst mcpTools)" and "distinct (map fst skillTools)"
  shows "distinct (map fst (getTools mcpTools skillTools))
    \<and> (\<forall>name. map_of (getTools mcpTools skillTools) name =
          (case map_of skillTools name of
             Some d \<Rightarrow> Some d
           | None \<Rightarrow> (case map_of mcpTools name of
                        Some d \<Rightarrow> Some d
                      | None \<Rightarrow> map_of baseTools name)))"
proof -
  have b: "distinct (map fst baseTools)"
    by (simp add: baseTools_def js_def)
  have "distinct (map fst (getTools mcpTools skillTools))"
    unfolding getTools_def spread3_def
    by (intro distinct_assignAll) simp
  moreover have "map_of (getTools mcpTools skillTools) =
      (map_of baseTools ++ map_of mcpTools) ++ map_of skillTools"
    unfolding getTools_def spread3_def
    using assms b by (simp add: map_of_assignAll)
  ultimately show ?thesis
    by (simp add: map_add_lookup split: option.splits)
qed

theorem getTools_precedence_witness:
  "map_of (getTools [(js ''calculate'', MCPTool (js ''calc'')),
                     (js ''git_status'', MCPTool (js ''status''))]
                    [(js ''git_status'', SkillTool (js ''git''))]) (js ''git_status'')
     = Some (SkillTool (js ''git''))
   \<and> map_of (getTools [(js ''calculate'', MCPTool (js ''calc'')),
                       (js ''git_status'', MCPTool (js ''status''))]
                      [(js ''git_status'', SkillTool (js ''git''))]) (js ''calculate'')
     = Some (MCPTool (js ''calc''))
   \<and> map_of (getTools [(js ''calculate'', MCPTool (js ''calc'')),
                       (js ''git_status'', MCPTool (js ''status''))]
                      [(js ''git_status'', SkillTool (js ''git''))]) (js ''readFile'')
     = Some ReadFileTool"
  using getTools_precedence [of
      "[(js ''calculate'', MCPTool (js ''calc'')), (js ''git_status'', MCPTool (js ''status''))]"
      "[(js ''git_status'', SkillTool (js ''git''))]"]
  by (simp add: baseTools_def js_def)

section \<open>Properties of strings\<close>

lemma startsWith_iff: "startsWith s p \<longleftrightarrow> (\<exists>post. s = p @ post)"
  by (induction s p rule: startsWith.induct) auto

lemma test_alternatives_iff:
  "test_alternatives alts s \<longleftrightarrow> (\<exists>k\<in>set alts. \<exists>pre post. s = pre @ k @ post)"
proof (induction s)
  case Nil
  show ?case by (auto simp: list_ex_iff startsWith_iff)
next
  case (Cons c cs)
  show ?case
  proof
    assume "test_alternatives alts (c # cs)"
    then consider "list_ex (\<lambda>k. startsWith (c # cs) k) alts" | "test_alternatives alts cs"
      by auto
    then show "\<exists>k\<in>set alts. \<exists>pre post. c # cs = pre @ k @ post"
    proof cases
      case 1
      then obtain k post where "k \<in> set alts" "c # cs = k @ post"
        by (auto simp: list_ex_iff startsWith_iff)
      then have "c # cs = [] @ k @ post" by simp
      with \<open>k \<in> set alts\<close> show ?thesis by blast
    next
      case 2
      with Cons.IH obtain k pre post where "k \<in> set alts" "cs = pre @ k @ post"
        by auto
      then have "c # cs = (c # pre) @ k @ post" by simp
      with \<open>k \<in> set alts\<close> show ?thesis by blast
    qed
  next
    assume "\<exists>k\<in>set alts. \<exists>pre post. c # cs = pre @ k @ post"
    then obtain k pre post where k: "k \<in> set alts" and e: "c # cs = pre @ k @ post"
      by auto
    show "test_alternatives alts (c # cs)"
    proof (cases pre)
      case Nil
      with e k have "list_ex (\<lambda>k. startsWith (c # cs) k) alts"
        by (auto simp: list_ex_iff startsWith_iff)
      then show ?thesis by simp
    next
      case (Cons d pre')
      with e have "cs = pre' @ k @ post" by simp
      with k Cons.IH have "test_alternatives alts cs" by blast
      then show ?thesis by simp
    qed
  qed
qed

lemma trim_Nil: "trim [] = []" by (simp add: trim_def)

lemma decimal_ne: "decimal n \<noteq> []"
  by (subst decimal.simps) simp

section \<open>Properties of the chat endpoint\<close>

lemma isArray_iff: "isArray v \<longleftrightarrow> (\<exists>vs. v = Some (JArr vs))"
  by (cases v rule: isArray.cases) auto

lemma getProperty_JNull: "getProperty JNull k = None"
  by simp

lemma chat_invalid:
  assumes "requestBody \<noteq> JNull" and "\<not> isArray (getProperty requestBody (js ''messages''))"
  shows "chat gen availableTools requestBody =
           (\<lparr>status = 400, body = ErrorBody (Literal (js ''Messages array is required''))\<rparr>, [])"
  using assms by (simp add: chat_def Let_def)

lemma chat_valid:
  assumes "getProperty requestBody (js ''messages'') = Some (JArr ms)"
  shows "chat gen availableTools requestBody =
           (case gen (chatRequest availableTools ms) of
              Inl message \<Rightarrow>
                (\<lparr>status = 500,
                  body = ErrorBody (Literal (if message \<noteq> [] then message
                                             else js ''Internal Server Error''))\<rparr>,
                 [chatRequest availableTools ms])
            | Inr r \<Rightarrow> (chatResponse r, [chatRequest availableTools ms]))"
proof -
  from assms have "requestBody \<noteq> JNull" by auto
  with assms show ?thesis by (simp add: chat_def Let_def)
qed

text \<open>
  C5: when the \<^verbatim>\<open>messages\<close> field of the request body is missing or is not an
  array, the handler answers with status 400 and the body
  \<^verbatim>\<open>{error: "Messages array is required"}\<close>, and issues no generation request.
\<close>

theorem chat_rejects_missing_messages:
  assumes "requestBody \<noteq> JNull" and "\<not> isArray (getProperty requestBody (js ''messages''))"
  shows "chat gen availableTools requestBody =
           (\<lparr>status = 400, body = ErrorBody (Literal (js ''Messages array is required''))\<rparr>, [])"
  using assms by (rule chat_invalid)

theorem chat_rejects_missing_messages_witness:
  "chat silentModel baseTools (JObj []) =
     (\<lparr>status = 400, body = ErrorBody (Literal (js ''Messages array is required''))\<rparr>, [])
   \<and> chat silentModel baseTools (JObj [(js ''messages'', JStr (js ''hello''))]) =
     (\<lparr>status = 400, body = ErrorBody (Literal (js ''Messages array is required''))\<rparr>, [])"
  using chat_rejects_missing_messages [of "JObj []" silentModel baseTools]
    chat_rejects_missing_messages [of "JObj [(js ''messages'', JStr (js ''hello''))]" silentModel baseTools]
  by (simp add: js_def)

lemma requiresAction_Nil: "\<not> requiresAction []"
  by (simp add: requiresAction_def userMessage_def lastMessage_def actionKeywords_def js_def)

text \<open>
  C10: a request whose \<^verbatim>\<open>messages\<close> field is the empty array passes validation.
  The handler issues one generation request, with no messages; the last-message lookup
  is \<^verbatim>\<open>undefined\<close>, the user text is empty, the tool choice is \<^verbatim>\<open>auto\<close>, and the
  status is that of the model call (200, or 500 when it throws), never 400.
\<close>

theorem chat_empty_messages:
  assumes "getProperty requestBody (js ''messages'') = Some (JArr [])"
  shows "snd (chat gen availableTools requestBody) = [chatRequest availableTools []]
    \<and> messages (chatRequest availableTools []) = []
    \<and> lastMessage [] = None
    \<and> userMessage [] = []
    \<and> toolChoice (chatRequest availableTools []) = Auto
    \<and> status (fst (chat gen availableTools requestBody)) \<noteq> 400
    \<and> status (fst (chat gen availableTools requestBody)) \<in> {200, 500}"
proof -
  have "snd (chat gen availableTools requestBody) = [chatRequest availableTools []]"
    and "status (fst (chat gen availableTools requestBody)) \<in> {200, 500}"
    using chat_valid [OF assms, of gen availableTools]
    by (auto simp: chatResponse_def Let_def split: sum.splits)
  then show ?thesis
    by (auto simp: chatRequest_def requiresAction_Nil userMessage_def lastMessage_def)
qed

theorem chat_empty_messages_witness:
  "snd (chat silentModel baseTools (JObj [(js ''messages'', JArr [])])) = [chatRequest baseTools []]
   \<and> toolChoice (chatRequest baseTools []) = Auto
   \<and> status (fst (chat silentModel baseTools (JObj [(js ''messages'', JArr [])]))) = 200
   \<and> status (fst (chat unavailableModel baseTools (JObj [(js ''messages'', JArr [])]))) = 500"
proof -
  have p: "getProperty (JObj [(js ''messages'', JArr [])]) (js ''messages'') = Some (JArr [])"
    by simp
  have "status (fst (chat silentModel baseTools (JObj [(js ''messages'', JArr [])]))) = 200"
    by (simp add: chat_valid [OF p] silentModel_def chatResponse_def Let_def)
  moreover have "status (fst (chat unavailableModel baseTools (JObj [(js ''messages'', JArr [])]))) = 500"
    by (simp add: chat_valid [OF p] unavailableModel_def)
  ultimately show ?thesis
    using chat_empty_messages [OF p, of silentModel baseTools] by simp
qed

lemma trim_nonempty: "trim s \<noteq> [] \<Longrightarrow> s \<noteq> []"
  by (auto simp: trim_def)

lemma defaultFeedback_nonempty: "defaultFeedback n \<noteq> []"
  by (simp add: defaultFeedback_def)

lemma requiresAction_iff:
  "requiresAction ms \<longleftrightarrow>
     (ms \<noteq> [] \<and> (\<exists>s. optionalContent (Some (last ms)) = Some (JStr s)
        \<and> (\<exists>k\<in>set actionKeywords. \<exists>pre post. toLowerCase s = pre @ k @ post)))"
proof (cases "ms = []")
  case True
  then show ?thesis using requiresAction_Nil by simp
next
  case False
  have none: "\<not> test_alternatives actionKeywords []"
    by (simp add: actionKeywords_def js_def)
  show ?thesis
  proof (cases "\<exists>s. optionalContent (Some (last ms)) = Some (JStr s)")
    case True
    then obtain s where s: "optionalContent (Some (last ms)) = Some (JStr s)" by blast
    with False have "requiresAction ms = test_alternatives actionKeywords (toLowerCase s)"
      by (simp add: requiresAction_def userMessage_def lastMessage_def)
    with s False show ?thesis
      by (simp add: test_alternatives_iff)
  next
    case no: False
    with False have "userMessage ms = []"
      by (auto simp: userMessage_def lastMessage_def split: option.splits json.splits)
    with no none show ?thesis
      by (simp add: requiresAction_def)
  qed
qed

text \<open>
  C3, as stated: tool use is forced if and only if the last user message matches the
  pattern. It fails on a conversation that ends with an assistant message: the last
  user message is \<^verbatim>\<open>commit\<close>, which matches, and the request leaves the tool choice
  at \<^verbatim>\<open>auto\<close>, since the handler looks at the last message whatever its role.
\<close>

theorem forced_tool_use_counterexample:
  "test_alternatives actionKeywords
     (spec_lastUserText
        [JObj [(js ''role'', JStr (js ''user'')), (js ''content'', JStr (js ''commit''))],
         JObj [(js ''role'', JStr (js ''assistant'')), (js ''content'', JStr (js ''ok''))]])
   \<and> map toolChoice
       (snd (chat unavailableModel baseTools
          (JObj [(js ''messages'', JArr
            [JObj [(js ''role'', JStr (js ''user'')), (js ''content'', JStr (js ''commit''))],
             JObj [(js ''role'', JStr (js ''assistant'')), (js ''content'', JStr (js ''ok''))]])])))
     = [Auto]"
  by (simp add: chat_def Let_def unavailableModel_def chatRequest_def requiresAction_def
      userMessage_def lastMessage_def spec_lastUserText_def spec_lastUserMessage_def
      toLowerCase_def lower_unit_def actionKeywords_def js_def)

text \<open>
  C3, amended: for a valid request the handler issues one generation request, and
  tool use is forced if and only if the conversation is not empty and the content of
  its last message, whatever the role of that message, is a plain string whose
  lower-case form contains one of the keywords; otherwise the tool choice is
  \<^verbatim>\<open>auto\<close>.
\<close>

theorem forced_tool_use_last_message:
  assumes "getProperty requestBody (js ''messages'') = Some (JArr ms)"
  shows "snd (chat gen availableTools requestBody) = [chatRequest availableTools ms]
    \<and> toolChoice (chatRequest availableTools ms) =
        (if ms \<noteq> [] \<and> (\<exists>s. optionalContent (Some (last ms)) = Some (JStr s)
              \<and> (\<exists>k\<in>set actionKeywords. \<exists>pre post. toLowerCase s = pre @ k @ post))
         then Required else Auto)"
proof -
  have "snd (chat gen availableTools requestBody) = [chatRequest availableTools ms]"
    using chat_valid [OF assms, of gen availableTools] by (simp split: sum.splits)
  moreover have "toolChoice (chatRequest availableTools ms) =
      (if requiresAction ms then Required else Auto)"
    by (simp add: chatRequest_def)
  ultimately show ?thesis
    using requiresAction_iff [of ms] by simp
qed

theorem forced_tool_use_last_message_witness:
  "map toolChoice
     (snd (chat unavailableModel baseTools
        (JObj [(js ''messages'', JArr
          [JObj [(js ''role'', JStr (js ''assistant'')),
                 (js ''content'', JStr (js ''Shall I COMMIT?''))]])])))
   = [Required]"
proof -
  let ?m = "JObj [(js ''role'', JStr (js ''assistant'')),
                  (js ''content'', JStr (js ''Shall I COMMIT?''))]"
  have p: "getProperty (JObj [(js ''messages'', JArr [?m])]) (js ''messages'') = Some (JArr [?m])"
    by simp
  have c: "optionalContent (Some (last [?m])) = Some (JStr (js ''Shall I COMMIT?''))"
    by (simp add: js_def)
  have k: "js ''commit'' \<in> set actionKeywords"
    by (simp add: actionKeywords_def)
  have l: "toLowerCase (js ''Shall I COMMIT?'') = js ''shall i '' @ js ''commit'' @ js ''?''"
    by (simp add: toLowerCase_def lower_unit_def js_def)
  from c k l have "[?m] \<noteq> [] \<and> (\<exists>s. optionalContent (Some (last [?m])) = Some (JStr s)
      \<and> (\<exists>k\<in>set actionKeywords. \<exists>pre post. toLowerCase s = pre @ k @ post))"
    by blast
  with forced_tool_use_last_message [OF p, of unavailableModel baseTools]
  show ?thesis by simp
qed

text \<open>
  C4: when the model returns tool calls and a text that is empty or only white space,
  the text of the response is the default feedback message, which is not empty; when
  the model returns a text that is not blank, the response carries that text
  unchanged.
\<close>

theorem chat_default_feedback:
  assumes "getProperty requestBody (js ''messages'') = Some (JArr ms)"
    and "gen (chatRequest availableTools ms) = Inr r"
  shows "(gen_toolCalls r \<noteq> [] \<and> trim (gen_text r) = [] \<longrightarrow>
            responseText (body (fst (chat gen availableTools requestBody)))
              = Some (defaultFeedback (length (gen_toolCalls r)))
            \<and> defaultFeedback (length (gen_toolCalls r)) \<noteq> [])
    \<and> (trim (gen_text r) \<noteq> [] \<longrightarrow>
            responseText (body (fst (chat gen availableTools requestBody))) = Some (gen_text r))"
proof -
  have "fst (chat gen availableTools requestBody) = chatResponse r"
    using chat_valid [OF assms(1), of gen availableTools] assms(2) by simp
  then show ?thesis
    using trim_nonempty [of "gen_text r"]
    by (auto simp: chatResponse_def Let_def defaultFeedback_nonempty)
qed

theorem chat_default_feedback_witness:
  "responseText (body (fst (chat silentModel baseTools (JObj [(js ''messages'', JArr [])]))))
     = Some ([0x2705, 0x20, 0x5DF2, 0x5B8C, 0x6210, 0x20, 0x32, 0x20, 0x4E2A, 0x5DE5, 0x5177,
              0x8C03, 0x7528, 0x3002, 0x4EFB, 0x52A1, 0x6267, 0x884C, 0x5B8C, 0x6210, 0x3002])"
proof -
  let ?r = "\<lparr>gen_text = js ''  '',
          gen_toolCalls = [\<lparr>toolName = js ''calculate'', input = JObj []\<rparr>,
                           \<lparr>toolName = js ''getCurrentTime'', input = JObj []\<rparr>],
          gen_response_messages = []\<rparr>"
  have p: "getProperty (JObj [(js ''messages'', JArr [])]) (js ''messages'') = Some (JArr [])"
    by simp
  have g: "silentModel (chatRequest baseTools []) = Inr ?r"
    by (simp add: silentModel_def)
  have t: "trim (gen_text ?r) = []"
    by (simp add: trim_def js_def isWhiteSpace_def)
  have d: "defaultFeedback (Suc (Suc 0)) = [0x2705, 0x20, 0x5DF2, 0x5B8C, 0x6210, 0x20, 0x32, 0x20, 0x4E2A, 0x5DE5, 0x5177,
              0x8C03, 0x7528, 0x3002, 0x4EFB, 0x52A1, 0x6267, 0x884C, 0x5B8C, 0x6210, 0x3002]"
    by (simp add: defaultFeedback_def decimal.simps)
  from chat_default_feedback [of "JObj [(js ''messages'', JArr [])]" "[]" silentModel baseTools ?r, OF p g] t d
  show ?thesis by simp
qed

section \<open>Properties of paths\<close>

lemma splitOn_no_sep: "c \<notin> set w \<Longrightarrow> splitOn c w = [w]"
  by (induction w) auto

lemma splitOn_append: "c \<notin> set w \<Longrightarrow> splitOn c (w @ c # rest) = w # splitOn c rest"
  by (induction w) auto

lemma splitOn_joinWith:
  "ws \<noteq> [] \<Longrightarrow> \<forall>w\<in>set ws. c \<notin> set w \<Longrightarrow> splitOn c (joinWith [c] ws) = ws"
proof (induction "[c]" ws rule: joinWith.induct)
  case 1
  then show ?case by simp
next
  case (2 w)
  then show ?case by (simp add: splitOn_no_sep)
next
  case (3 w v ws)
  then show ?case by (simp add: splitOn_append)
qed

lemma joinWith_snoc: "ws \<noteq> [] \<Longrightarrow> joinWith s (ws @ [w]) = joinWith s ws @ s @ w"
  by (induction s ws rule: joinWith.induct) auto

lemma normalizeSegments_names:
  "\<forall>s\<in>set segs. validName s \<Longrightarrow> normalizeSegments a res segs = rev res @ segs"
  by (induction segs arbitrary: res) (auto simp: validName_def)

lemma normalizeSegments_empty_first:
  "normalizeSegments a res ([] # segs) = normalizeSegments a res segs"
  by simp

lemma normalizeSegments_names_padded:
  "\<forall>s\<in>set segs. validName s \<Longrightarrow> normalizeSegments a [] ([] # segs @ [[]]) = segs"
proof -
  assume v: "\<forall>s\<in>set segs. validName s"
  have "normalizeSegments a res (segs @ [[]]) = rev res @ segs" for res
    using v by (induction segs arbitrary: res) (auto simp: validName_def)
  then show ?thesis by simp
qed



lemma resolveLoop_absolute:
  "isAbsolute p \<Longrightarrow> resolveLoop [p, cwd] [] = (p @ sep, True)"
  by (auto simp: isAbsolute_def split: list.splits)

lemma isAbsolute_absolutePath: "isAbsolute (absolutePath segs)"
  by (simp add: isAbsolute_def absolutePath_def sep_def)

lemma absolutePath_nonempty: "absolutePath segs \<noteq> []"
  by (simp add: absolutePath_def sep_def)

lemma names_no_sep: "\<forall>s\<in>set segs. validName s \<Longrightarrow> \<forall>w\<in>set segs. CHAR_FORWARD_SLASH \<notin> set w"
  by (simp add: validName_def)

lemma splitOn_absolutePath:
  assumes "\<forall>s\<in>set segs. validName s" and "segs \<noteq> []"
  shows "splitOn CHAR_FORWARD_SLASH (absolutePath segs) = [] # segs"
  using assms
  by (simp add: absolutePath_def sep_def splitOn_joinWith [unfolded sep_def] validName_def)

lemma resolve_absolutePath:
  assumes v: "\<forall>s\<in>set segs. validName s"
  shows "resolve cwd [absolutePath segs] = absolutePath segs"
proof (cases "segs = []")
  case True
  then show ?thesis
    by (simp add: resolve_def absolutePath_def sep_def isAbsolute_def normalizeString_def)
next
  case False
  have "absolutePath segs @ sep = [CHAR_FORWARD_SLASH] @ joinWith [CHAR_FORWARD_SLASH] (segs @ [[]])"
    using False by (simp add: absolutePath_def sep_def joinWith_snoc)
  also have "\<dots> = joinWith [CHAR_FORWARD_SLASH] ([] # segs @ [[]])"
    using False by (cases segs) auto
  finally have "splitOn CHAR_FORWARD_SLASH (absolutePath segs @ sep) = [] # segs @ [[]]"
    using v by (simp add: splitOn_joinWith validName_def)
  then have "normalizeString (absolutePath segs @ sep) False = joinWith sep segs"
    using v by (simp add: normalizeString_def normalizeSegments_names_padded del: normalizeSegments.simps)
  moreover have "resolve cwd [absolutePath segs]
      = sep @ normalizeString (absolutePath segs @ sep) False"
    by (simp add: resolve_def resolveLoop_absolute [OF isAbsolute_absolutePath]
        del: resolveLoop.simps)
  ultimately show ?thesis
    by (simp add: absolutePath_def)
qed

lemma resolvedSegments_absolutePath:
  assumes v: "\<forall>s\<in>set segs. validName s"
  shows "resolvedSegments cwd (absolutePath segs) = segs"
proof (cases "segs = []")
  case True
  have "resolve cwd [absolutePath []] = absolutePath []"
    by (rule resolve_absolutePath) simp
  with True show ?thesis
    by (simp add: resolvedSegments_def absolutePath_def sep_def)
next
  case False
  have "filter (\<lambda>s. s \<noteq> []) segs = segs"
    using v by (auto simp: validName_def filter_id_conv)
  then show ?thesis
    using v False by (simp add: resolvedSegments_def resolve_absolutePath splitOn_absolutePath)
qed






section \<open>Properties of the file tools\<close>































text \<open>
  C1: a path outside the project root must be refused by the delete-file tool, with
  the file system left as it was. The tool compares the resolved path and the resolved
  root as strings, so a sibling of the root whose name begins with the name of the
  root passes the check: with the root \<^verbatim>\<open>/app\<close>, the file \<^verbatim>\<open>/app2/secret.txt\<close> lies
  outside the root, and the tool reports success and the file is gone.
\<close>

theorem deleteFileTool_sibling_prefix:
  "\<not> spec_insideRoot (js ''/app/server'') (js ''/app'') (js ''/app2/secret.txt'')
   \<and> exampleFs [js ''app2'', js ''secret.txt''] = Some (File (js ''secret''))
   \<and> fst (deleteFileTool (js ''/app/server'') (js ''/app'') exampleFs (js ''/app2/secret.txt''))
       = SuccessResult (js ''File /app2/secret.txt deleted successfully.'')
   \<and> snd (deleteFileTool (js ''/app/server'') (js ''/app'') exampleFs (js ''/app2/secret.txt''))
         [js ''app2'', js ''secret.txt''] = None"
  by code_simp




section \<open>Properties of the environment of a provider\<close>

lemma distinct_parseEnvLine:
  "distinct (map fst e) \<Longrightarrow> distinct (map fst (parseEnvLine line e))"
  by (auto simp: parseEnvLine_def setProperty_def Let_def distinct_update split: option.splits)

lemma distinct_fold_parseEnvLine:
  "distinct (map fst e) \<Longrightarrow> distinct (map fst (fold parseEnvLine ls e))"
  by (induction ls arbitrary: e) (simp_all add: distinct_parseEnvLine)

lemma distinct_loadEnvFile:
  "loadEnvFile cwd fs f ws = Inr vars \<Longrightarrow> distinct (map fst vars)"
  by (auto simp: loadEnvFile_def Let_def distinct_fold_parseEnvLine split: if_splits sum.splits)

lemma map_of_spread2:
  assumes "distinct (map fst a)" and "distinct (map fst b)"
  shows "map_of (spread2 a b) k = (case map_of b k of Some v \<Rightarrow> Some v | None \<Rightarrow> map_of a k)"
  using assms by (simp add: spread2_def map_of_assignAll map_add_lookup)

lemma distinct_spread2: "distinct (map fst (spread2 a b))"
  unfolding spread2_def by (intro distinct_assignAll) simp

text \<open>
  C9: when a provider configuration has both an inline \<^verbatim>\<open>env\<close> and an \<^verbatim>\<open>envFile\<close>
  that loads, the environment of the provider has every key once; a key of the inline
  map has the inline value, also when the file defines it too, and a key that only the
  file defines keeps the value from the file.
\<close>

theorem stdioEnv_inline_precedence:
  assumes "env stdioConfig = Some inline" and "distinct (map fst inline)"
    and "envFile stdioConfig = Some f" and "f \<noteq> []"
    and "loadEnvFile cwd fs f PROJECT_ROOT = Inr envFileVars"
  shows "\<exists>merged. stdioEnv cwd fs PROJECT_ROOT stdioConfig = Inr merged
    \<and> distinct (map fst merged)
    \<and> (\<forall>k. map_of merged k =
          (case map_of inline k of Some v \<Rightarrow> Some v | None \<Rightarrow> map_of envFileVars k))"
proof -
  let ?env0 = "assignAll [] inline"
  have s: "stdioEnv cwd fs PROJECT_ROOT stdioConfig = Inr (spread2 envFileVars ?env0)"
    using assms by (simp add: stdioEnv_def)
  have d0: "distinct (map fst ?env0)"
    by (intro distinct_assignAll) simp
  have m0: "map_of ?env0 = map_of inline"
    using assms(2) by (simp add: map_of_assignAll)
  have dv: "distinct (map fst envFileVars)"
    using assms(5) by (rule distinct_loadEnvFile)
  have "\<forall>k. map_of (spread2 envFileVars ?env0) k =
      (case map_of inline k of Some v \<Rightarrow> Some v | None \<Rightarrow> map_of envFileVars k)"
    using map_of_spread2 [OF dv d0] by (simp add: m0)
  with s distinct_spread2 [of envFileVars ?env0] show ?thesis
    by blast
qed

theorem stdioEnv_inline_precedence_witness:
  "\<exists>merged. stdioEnv (js ''/app/server'') exampleEnvFs (js ''/app'') exampleConfig = Inr merged
     \<and> map_of merged (js ''A'') = Some (js ''1'')
     \<and> map_of merged (js ''B'') = Some (js ''inline'')
     \<and> map_of merged (js ''C'') = Some (js ''x=y'')
     \<and> map_of merged (js ''D'') = Some (js ''4'')"
proof -
  let ?inline = "[(js ''B'', js ''inline''), (js ''D'', js ''4'')]"
  let ?vars = "[(js ''A'', js ''1''), (js ''B'', js ''two''), (js ''C'', js ''x=y'')]"
  have 1: "env exampleConfig = Some ?inline" and 3: "envFile exampleConfig = Some (js ''.env'')"
    by (simp_all add: exampleConfig_def)
  have 2: "distinct (map fst ?inline)" and 4: "js ''.env'' \<noteq> []"
    by (simp_all add: js_def)
  have 5: "loadEnvFile (js ''/app/server'') exampleEnvFs (js ''.env'') (js ''/app'') = Inr ?vars"
    by code_simp
  from stdioEnv_inline_precedence [OF 1 2 3 4 5]
  obtain merged where m: "stdioEnv (js ''/app/server'') exampleEnvFs (js ''/app'') exampleConfig = Inr merged"
    and l: "\<forall>k. map_of merged k =
          (case map_of ?inline k of Some v \<Rightarrow> Some v | None \<Rightarrow> map_of ?vars k)"
    by blast
  have "map_of merged (js ''A'') = Some (js ''1'')"
    "map_of merged (js ''B'') = Some (js ''inline'')"
    "map_of merged (js ''C'') = Some (js ''x=y'')"
    "map_of merged (js ''D'') = Some (js ''4'')"
    by (simp_all add: l js_def)
  with m show ?thesis by blast
qed

section \<open>Properties of skills\<close>

lemma findFence_Some:
  "findFence s = Some i \<Longrightarrow> \<exists>post. s = take i s @ fence @ post"
proof (induction s arbitrary: i)
  case Nil
  then show ?case by simp
next
  case (Cons c cs)
  show ?case
  proof (cases "startsWith (c # cs) fence")
    case True
    with Cons.prems have "i = 0" by simp
    with True show ?thesis
      by (auto simp: startsWith_iff)
  next
    case False
    with Cons.prems obtain j where j: "findFence cs = Some j" "i = Suc j"
      by auto
    from Cons.IH [OF j(1)] obtain post where "cs = take j cs @ fence @ post" by blast
    then have "c # cs = take (Suc j) (c # cs) @ fence @ post" by simp
    then show ?thesis unfolding j(2) by blast
  qed
qed

lemma findFence_after: "findFence (b @ fence @ post) \<noteq> None"
proof (induction b)
  case Nil
  show ?case by (cases post) (simp_all add: fence_def)
next
  case (Cons c b)
  then show ?case by auto
qed

lemma isWordChar_newline: "\<not> isWordChar 0x0A"
  by (simp add: isWordChar_def)

lemma matchCodeBlock_Some:
  assumes "matchCodeBlock s = Some (w, b, n)"
  shows "\<exists>post. s = fence @ w @ [0x0A] @ b @ fence @ post \<and> (\<forall>c\<in>set w. isWordChar c)"
proof -
  from assms have sw: "startsWith s fence"
    by (auto simp: matchCodeBlock_def split: if_splits)
  then obtain r where s: "s = fence @ r"
    by (auto simp: startsWith_iff)
  then have r: "drop 3 s = r"
    by (simp add: fence_def)
  let ?w = "takeWhile isWordChar r"
  from assms sw r obtain r2 i where d: "drop (length ?w) r = 0x0A # r2"
    and f: "findFence r2 = Some i" and w: "w = ?w" and b: "b = take i r2"
    by (auto simp: matchCodeBlock_def Let_def split: list.splits if_splits option.splits)
  have "r = ?w @ drop (length ?w) r"
    by (simp add: dropWhile_eq_drop [symmetric])
  with d have r': "r = ?w @ 0x0A # r2" by simp
  from findFence_Some [OF f] b obtain post where "r2 = b @ fence @ post" by auto
  with r' s w have "s = fence @ w @ [0x0A] @ b @ fence @ post"
    by simp
  moreover have "\<forall>c\<in>set w. isWordChar c"
    unfolding w by (auto dest: set_takeWhileD)
  ultimately show ?thesis by blast
qed

lemma matchCodeBlock_block:
  assumes "\<forall>c\<in>set tag. isWordChar c"
  shows "matchCodeBlock (fence @ tag @ [0x0A] @ b @ fence @ post) \<noteq> None"
proof -
  let ?r = "tag @ [0x0A] @ b @ fence @ post"
  have t: "takeWhile isWordChar ?r = tag"
    using assms isWordChar_newline by (simp add: takeWhile_append)
  have d: "drop 3 (fence @ ?r) = ?r"
    by (simp add: fence_def)
  have dr: "drop (length tag) ?r = 0x0A # b @ fence @ post"
    by simp
  obtain i where i: "findFence (b @ fence @ post) = Some i"
    using findFence_after [of b post] by auto
  show ?thesis
    unfolding matchCodeBlock_def Let_def d t dr
    by (simp add: i startsWith_iff)
qed

lemma noCodeBlock_suffix:
  "noCodeBlock s \<Longrightarrow> s = pre @ c # cs \<Longrightarrow> matchCodeBlock (c # cs) = None"
proof (induction s arbitrary: pre)
  case Nil
  then show ?case by simp
next
  case (Cons x xs)
  show ?case
  proof (cases pre)
    case Nil
    with Cons.prems show ?thesis by simp
  next
    case (Cons y ys)
    with Cons.prems Cons.IH [of ys] show ?thesis by simp
  qed
qed

lemma noCodeBlock_iff:
  "noCodeBlock s \<longleftrightarrow>
     \<not> (\<exists>pre tag b post. s = pre @ fence @ tag @ [0x0A] @ b @ fence @ post
          \<and> (\<forall>c\<in>set tag. isWordChar c))"
proof
  assume n: "noCodeBlock s"
  show "\<not> (\<exists>pre tag b post. s = pre @ fence @ tag @ [0x0A] @ b @ fence @ post
          \<and> (\<forall>c\<in>set tag. isWordChar c))"
  proof
    assume "\<exists>pre tag b post. s = pre @ fence @ tag @ [0x0A] @ b @ fence @ post
          \<and> (\<forall>c\<in>set tag. isWordChar c)"
    then obtain pre tag b post where s: "s = pre @ fence @ tag @ [0x0A] @ b @ fence @ post"
      and t: "\<forall>c\<in>set tag. isWordChar c" by blast
    obtain c cs where c: "fence @ tag @ [0x0A] @ b @ fence @ post = c # cs"
      by (simp add: fence_def)
    with s have "s = pre @ c # cs" by simp
    from noCodeBlock_suffix [OF n this] c matchCodeBlock_block [OF t, of b post]
    show False by simp
  qed
next
  assume d: "\<not> (\<exists>pre tag b post. s = pre @ fence @ tag @ [0x0A] @ b @ fence @ post
          \<and> (\<forall>c\<in>set tag. isWordChar c))"
  then show "noCodeBlock s"
  proof (induction s)
    case Nil
    show ?case by simp
  next
    case (Cons c cs)
    have "matchCodeBlock (c # cs) = None"
    proof (rule ccontr)
      assume "matchCodeBlock (c # cs) \<noteq> None"
      then obtain w b n where "matchCodeBlock (c # cs) = Some (w, b, n)" by auto
      from matchCodeBlock_Some [OF this] obtain post
        where "c # cs = [] @ fence @ w @ [0x0A] @ b @ fence @ post" "\<forall>c\<in>set w. isWordChar c"
        by auto
      with Cons.prems show False by blast
    qed
    moreover have "noCodeBlock cs"
    proof (rule Cons.IH, rule notI)
      assume "\<exists>pre tag b post. cs = pre @ fence @ tag @ [0x0A] @ b @ fence @ post
          \<and> (\<forall>c\<in>set tag. isWordChar c)"
      then obtain pre tag b post where "cs = pre @ fence @ tag @ [0x0A] @ b @ fence @ post"
        and t: "\<forall>c\<in>set tag. isWordChar c" by blast
      then have "c # cs = (c # pre) @ fence @ tag @ [0x0A] @ b @ fence @ post" by simp
      with t Cons.prems show False by blast
    qed
    ultimately show ?case by simp
  qed
qed

lemma execAll_noCodeBlock: "noCodeBlock s \<Longrightarrow> execAll s = []"
  by (induction s) auto

text \<open>
  C7: a loaded skill has \<^verbatim>\<open>hasExecutableScripts\<close> if and only if one of its extracted
  code blocks has a language tag among \<^verbatim>\<open>bash\<close>, \<^verbatim>\<open>sh\<close>, \<^verbatim>\<open>shell\<close>, \<^verbatim>\<open>python\<close>,
  \<^verbatim>\<open>python3\<close>, \<^verbatim>\<open>node\<close>, \<^verbatim>\<open>javascript\<close>, \<^verbatim>\<open>js\<close>, \<^verbatim>\<open>typescript\<close>, \<^verbatim>\<open>ts\<close>,
  or the empty tag; and a descriptor with no fenced code block (no fence followed by an
  optional tag of word characters, a line feed, a body and a closing fence) has no code
  blocks and the flag is false.
\<close>

theorem hasExecutableScripts_iff:
  "(hasExecutableScripts (loadSkill content) \<longleftrightarrow>
      (\<exists>block\<in>set (codeBlocks (loadSkill content)).
          language block \<in> {js ''bash'', js ''sh'', js ''shell'', js ''python'', js ''python3'',
            js ''node'', js ''javascript'', js ''js'', js ''typescript'', js ''ts'', []}))
   \<and> (\<not> (\<exists>pre tag b post. content = pre @ fence @ tag @ [0x0A] @ b @ fence @ post
            \<and> (\<forall>c\<in>set tag. isWordChar c)) \<longrightarrow>
        codeBlocks (loadSkill content) = [] \<and> \<not> hasExecutableScripts (loadSkill content))"
proof
  show "hasExecutableScripts (loadSkill content) \<longleftrightarrow>
      (\<exists>block\<in>set (codeBlocks (loadSkill content)).
          language block \<in> {js ''bash'', js ''sh'', js ''shell'', js ''python'', js ''python3'',
            js ''node'', js ''javascript'', js ''js'', js ''typescript'', js ''ts'', []})"
    by (simp add: loadSkill_def Let_def list_ex_iff executableLanguages_def)
next
  show "\<not> (\<exists>pre tag b post. content = pre @ fence @ tag @ [0x0A] @ b @ fence @ post
            \<and> (\<forall>c\<in>set tag. isWordChar c)) \<longrightarrow>
        codeBlocks (loadSkill content) = [] \<and> \<not> hasExecutableScripts (loadSkill content)"
  proof
    assume "\<not> (\<exists>pre tag b post. content = pre @ fence @ tag @ [0x0A] @ b @ fence @ post
            \<and> (\<forall>c\<in>set tag. isWordChar c))"
    then have "noCodeBlock content"
      using noCodeBlock_iff [of content] by blast
    then have "execAll content = []"
      by (rule execAll_noCodeBlock)
    then show "codeBlocks (loadSkill content) = [] \<and> \<not> hasExecutableScripts (loadSkill content)"
      by (simp add: loadSkill_def Let_def)
  qed
qed


theorem hasExecutableScripts_iff_witness:
  "hasExecutableScripts (loadSkill pythonSkill)
   \<and> map language (codeBlocks (loadSkill pythonSkill)) = [js ''python'']
   \<and> \<not> hasExecutableScripts (loadSkill rubySkill)
   \<and> map language (codeBlocks (loadSkill rubySkill)) = [js ''ruby'']
   \<and> hasExecutableScripts (loadSkill exampleSkill)
   \<and> map language (codeBlocks (loadSkill exampleSkill)) = [js ''bash'', js ''ruby'', []]
   \<and> map index (codeBlocks (loadSkill exampleSkill)) = [0, 1, 2]
   \<and> codeBlocks (loadSkill plainSkill) = []
   \<and> \<not> hasExecutableScripts (loadSkill plainSkill)"
proof -
  let ?allowed = "{js ''bash'', js ''sh'', js ''shell'', js ''python'', js ''python3'',
            js ''node'', js ''javascript'', js ''js'', js ''typescript'', js ''ts'', []}"
  have lp: "map language (codeBlocks (loadSkill pythonSkill)) = [js ''python'']"
    and lr: "map language (codeBlocks (loadSkill rubySkill)) = [js ''ruby'']"
    and le: "map language (codeBlocks (loadSkill exampleSkill)) = [js ''bash'', js ''ruby'', []]"
    and ie: "map index (codeBlocks (loadSkill exampleSkill)) = [0, 1, 2]"
    by code_simp+
  have "list_ex (\<lambda>block. language block \<in> ?allowed) (codeBlocks (loadSkill pythonSkill))"
    by code_simp
  then have "\<exists>block\<in>set (codeBlocks (loadSkill pythonSkill)). language block \<in> ?allowed"
    by (simp only: list_ex_iff)
  with hasExecutableScripts_iff [of pythonSkill]
  have p: "hasExecutableScripts (loadSkill pythonSkill)" by blast
  have "list_ex (\<lambda>block. language block \<in> ?allowed) (codeBlocks (loadSkill exampleSkill))"
    by code_simp
  then have "\<exists>block\<in>set (codeBlocks (loadSkill exampleSkill)). language block \<in> ?allowed"
    by (simp only: list_ex_iff)
  with hasExecutableScripts_iff [of exampleSkill]
  have e: "hasExecutableScripts (loadSkill exampleSkill)" by blast
  have "\<not> list_ex (\<lambda>block. language block \<in> ?allowed) (codeBlocks (loadSkill rubySkill))"
    by code_simp
  then have "\<not> (\<exists>block\<in>set (codeBlocks (loadSkill rubySkill)). language block \<in> ?allowed)"
    unfolding list_ex_iff by blast
  with hasExecutableScripts_iff [of rubySkill]
  have r: "\<not> hasExecutableScripts (loadSkill rubySkill)" by blast
  have "noCodeBlock plainSkill"
    by code_simp
  then have "\<not> (\<exists>pre tag b post. plainSkill = pre @ fence @ tag @ [0x0A] @ b @ fence @ post
            \<and> (\<forall>c\<in>set tag. isWordChar c))"
    using noCodeBlock_iff [of plainSkill] by blast
  with hasExecutableScripts_iff [of plainSkill]
  have n: "codeBlocks (loadSkill plainSkill) = [] \<and> \<not> hasExecutableScripts (loadSkill plainSkill)"
    by blast
  from p lp r lr e le ie n show ?thesis by blast
qed

section \<open>Properties of interpolation\<close>

lemma startsWith_append [simp]: "startsWith (p @ rest) p"
  by (simp add: startsWith_iff)








lemma matchLiteral_dollar:
  "pat = 0x24 # p \<Longrightarrow> c \<noteq> 0x24 \<Longrightarrow> matchLiteral pat (c # cs) = None"
  by (simp add: matchLiteral_def)






lemma length_js [simp]: "length (js s) = length s"
  by (simp add: js_def)

lemma js_nonempty [simp]: "js s = [] \<longleftrightarrow> s = []"
  by (simp add: js_def)



















end
